theory Spec2Isabelle
  imports Main "HOL-Library.Word" "HOL-Library.Sublist"
begin

section \<open>Strings\<close>

text \<open>
  A JavaScript string is a sequence of UTF-16 code units. String literals of the source
  are ASCII; \<open>lit\<close> turns an ASCII literal into its code units.
\<close>

type_synonym js_string = "16 word list"

definition lit :: "string \<Rightarrow> js_string" where
  "lit s = map (\<lambda>c. of_nat (of_char c)) s"

text \<open>
  \<open>String.prototype.trim\<close> removes WhiteSpace and LineTerminator code points from both
  ends: TAB, LF, VT, FF, CR, SP, NBSP, U+1680, U+2000..U+200A, U+2028, U+2029, U+202F,
  U+205F, U+3000 and U+FEFF. All of them are single code units.
\<close>

definition is_ws :: "16 word \<Rightarrow> bool" where
  "is_ws c = (c \<in> set [0x09, 0x0A, 0x0B, 0x0C, 0x0D, 0x20, 0xA0, 0x1680,
                         0x2028, 0x2029, 0x202F, 0x205F, 0x3000, 0xFEFF]
              \<or> (0x2000 \<le> c \<and> c \<le> 0x200A))"

definition trim :: "js_string \<Rightarrow> js_string" where
  "trim s = rev (dropWhile is_ws (rev (dropWhile is_ws s)))"

section \<open>Data model\<close>

datatype role = User | Assistant | System

record stored_metadata =
  createdAt :: js_string

text \<open>The interface \<open>StoredMessage\<close>; its \<open>metadata\<close> field is optional.\<close>

record stored_message =
  role :: role
  content :: js_string
  metadata :: "stored_metadata option"

text \<open>
  An inbound (UI) message is untyped in the source. The code reads \<open>role\<close>, \<open>parts\<close>
  (which may be missing) and \<open>metadata?.createdAt\<close> (either may be missing); of a part it
  reads \<open>type\<close> and \<open>text\<close> (which may be missing).
\<close>

record part =
  ptype :: js_string
  ptext :: "js_string option"

record ui_meta =
  ui_createdAt :: "js_string option"

record ui_message =
  ui_role :: role
  parts :: "part list option"
  ui_metadata :: "ui_meta option"

section \<open>Context management\<close>

definition MAX_MESSAGES_IN_CONTEXT :: nat where
  "MAX_MESSAGES_IN_CONTEXT = 15"

definition MAX_STORED_MESSAGES :: nat where
  "MAX_STORED_MESSAGES = 100"

text \<open>
  \<open>Array.prototype.slice(start)\<close> with one argument: a negative \<open>start\<close> counts from
  the end and is clamped at 0, a positive one is clamped at the length.
\<close>

definition slice :: "int \<Rightarrow> 'a list \<Rightarrow> 'a list" where
  "slice start xs =
     (let len = int (length xs);
          k = (if start < 0 then max (len + start) 0 else min start len)
      in drop (nat k) xs)"

definition getRecentMessages :: "stored_message list \<Rightarrow> stored_message list" where
  "getRecentMessages messages =
     (if length messages \<le> MAX_MESSAGES_IN_CONTEXT then messages
      else slice (- int MAX_MESSAGES_IN_CONTEXT) messages)"

definition trimStoredHistory :: "stored_message list \<Rightarrow> stored_message list" where
  "trimStoredHistory messages =
     (if length messages \<le> MAX_STORED_MESSAGES then messages
      else slice (- int MAX_STORED_MESSAGES) messages)"

text \<open>
  \<open>extractContent\<close>: the loop over \<open>message.parts\<close> appends the text of every part
  whose \<open>type\<close> is \<open>"text"\<close> and whose \<open>text\<close> is truthy (present and non-empty);
  the result is trimmed.
\<close>

definition truthy :: "js_string option \<Rightarrow> bool" where
  "truthy v = (case v of None \<Rightarrow> False | Some s \<Rightarrow> s \<noteq> [])"

definition extractContent :: "ui_message \<Rightarrow> js_string" where
  "extractContent message =
     (let content =
        (case parts message of
           None \<Rightarrow> []
         | Some ps \<Rightarrow>
             foldl (\<lambda>content part.
                      if ptype part = lit ''text'' \<and> truthy (ptext part)
                      then content @ the (ptext part) else content) [] ps)
      in trim content)"

text \<open>
  \<open>getLatestMessage\<close>: the loop \<open>for (i = length - 1; i >= 0; i--)\<close>, with the index an
  integer as in the source.
\<close>

function getLatestMessage_loop :: "ui_message list \<Rightarrow> int \<Rightarrow> ui_message option" where
  "getLatestMessage_loop incomingMessages i =
     (if i \<ge> 0 then
        (let msg = incomingMessages ! nat i;
             content = extractContent msg
         in if length content > 0 then Some msg
            else getLatestMessage_loop incomingMessages (i - 1))
      else None)"
  by pat_completeness auto
termination
  by (relation "measure (\<lambda>(ms, i). nat (i + 1))") auto

declare getLatestMessage_loop.simps [simp del]

definition getLatestMessage :: "ui_message list \<Rightarrow> ui_message option" where
  "getLatestMessage incomingMessages =
     getLatestMessage_loop incomingMessages (int (length incomingMessages) - 1)"

text \<open>The variant of the duplicate-detecting handler, which also requires the user role.\<close>

function getLatestUserMessage_loop :: "ui_message list \<Rightarrow> int \<Rightarrow> ui_message option" where
  "getLatestUserMessage_loop incomingMessages i =
     (if i \<ge> 0 then
        (let msg = incomingMessages ! nat i
         in if ui_role msg = User \<and> length (extractContent msg) > 0 then Some msg
            else getLatestUserMessage_loop incomingMessages (i - 1))
      else None)"
  by pat_completeness auto
termination
  by (relation "measure (\<lambda>(ms, i). nat (i + 1))") auto

declare getLatestUserMessage_loop.simps [simp del]

definition getLatestUserMessage :: "ui_message list \<Rightarrow> ui_message option" where
  "getLatestUserMessage incomingMessages =
     getLatestUserMessage_loop incomingMessages (int (length incomingMessages) - 1)"

text \<open>
  \<open>toStoredMessage\<close>: the optional \<open>timestamp\<close> argument is an option; the chain
  \<open>timestamp || message.metadata?.createdAt || new Date().toISOString()\<close> takes the first
  truthy value. The clock reading \<open>clock\<close> is what \<open>new Date().toISOString()\<close> would
  return there.
\<close>

definition toStoredMessage ::
    "js_string \<Rightarrow> ui_message \<Rightarrow> js_string option \<Rightarrow> stored_message option" where
  "toStoredMessage clock message timestamp =
     (let content = extractContent message
      in if content = [] \<or> length content = 0 then None
         else Some \<lparr>role = ui_role message, content = content,
                    metadata = Some \<lparr>createdAt =
                      (if truthy timestamp then the timestamp
                       else let c = (case ui_metadata message of
                                       None \<Rightarrow> None | Some md \<Rightarrow> ui_createdAt md)
                            in if truthy c then the c else clock)\<rparr>\<rparr>)"

definition toUIMessage :: "stored_message \<Rightarrow> ui_message" where
  "toUIMessage message =
     \<lparr>ui_role = role message,
      parts = Some [\<lparr>ptype = lit ''text'', ptext = Some (content message)\<rparr>],
      ui_metadata = map_option (\<lambda>md. \<lparr>ui_createdAt = Some (createdAt md)\<rparr>) (metadata message)\<rparr>"

section \<open>The turn handler\<close>

text \<open>
  The storage holds the log under the key \<open>conversation_history\<close>, or nothing. The
  handler's effects are recorded in order: the storage operations and the call of the
  model with the context messages. The environment gives the clock readings and the text
  of the model's finish event (\<open>None\<close> when the event never comes).
\<close>

datatype effect =
    StorageDelete
  | StoragePut "stored_message list"
  | StreamText "ui_message list"

datatype response =
    Response string nat
  | ClearResponse bool nat nat
  | UIMessageStreamResponse

record env =
  now :: js_string
  convert_now :: js_string
  assistant_now :: js_string
  event_text :: "js_string option"

record outcome =
  response :: response
  storage :: "stored_message list option"
  effects :: "effect list"

text \<open>\<open>(await storage.get("conversation_history")) || []\<close>\<close>

definition loadHistory :: "stored_message list option \<Rightarrow> stored_message list" where
  "loadHistory store = (case store of None \<Rightarrow> [] | Some h \<Rightarrow> h)"

text \<open>\<open>{...latestMessage, metadata: {...latestMessage.metadata, createdAt: now}}\<close>\<close>

definition userMessageWithTimestamp :: "ui_message \<Rightarrow> js_string \<Rightarrow> ui_message" where
  "userMessageWithTimestamp latestMessage t =
     latestMessage\<lparr>ui_metadata :=
       Some (case ui_metadata latestMessage of
               None \<Rightarrow> \<lparr>ui_createdAt = Some t\<rparr>
             | Some md \<Rightarrow> md\<lparr>ui_createdAt := Some t\<rparr>)\<rparr>"

text \<open>
  The part shared by both handlers: build the context, call the model and, in the
  \<open>onFinish\<close> callback, convert, append, trim and save.
\<close>

definition processUserMessage ::
    "env \<Rightarrow> stored_message list option \<Rightarrow> ui_message \<Rightarrow> outcome" where
  "processUserMessage e store latestMessage =
     (let storedHistory = loadHistory store;
          userMsg = userMessageWithTimestamp latestMessage (now e);
          recentHistory = getRecentMessages storedHistory;
          recentHistoryAsUI = map toUIMessage recentHistory;
          contextMessages = recentHistoryAsUI @ [userMsg]
      in case event_text e of
           None \<Rightarrow>
             \<lparr>response = UIMessageStreamResponse, storage = store,
              effects = [StreamText contextMessages]\<rparr>
         | Some assistantMessage \<Rightarrow>
             (case toStoredMessage (convert_now e) userMsg (Some (now e)) of
                None \<Rightarrow>
                  \<lparr>response = UIMessageStreamResponse, storage = store,
                   effects = [StreamText contextMessages]\<rparr>
              | Some userStoredMessage \<Rightarrow>
                  (let assistantMessageObj =
                         \<lparr>role = Assistant, content = assistantMessage,
                          metadata = Some \<lparr>createdAt = assistant_now e\<rparr>\<rparr>;
                       updatedHistory = storedHistory @ [userStoredMessage, assistantMessageObj];
                       trimmedHistory = trimStoredHistory updatedHistory
                   in \<lparr>response = UIMessageStreamResponse, storage = Some trimmedHistory,
                       effects = [StreamText contextMessages, StoragePut trimmedHistory]\<rparr>)))"

text \<open>\<open>onChatMessage\<close> of \<open>server.ts\<close>.\<close>

definition onChatMessage ::
    "env \<Rightarrow> stored_message list option \<Rightarrow> ui_message list \<Rightarrow> outcome" where
  "onChatMessage e store messages =
     (let storedHistory = loadHistory store
      in case getLatestMessage messages of
           None \<Rightarrow> \<lparr>response = Response ''No valid message'' 200, storage = store, effects = []\<rparr>
         | Some latestMessage \<Rightarrow>
             (let messageContent = extractContent latestMessage;
                  messageRole = ui_role latestMessage
              in if messageRole = System \<and> messageContent = lit ''(clear requested)'' then
                   (let count = length storedHistory
                    in \<lparr>response = ClearResponse True count 200, storage = None,
                        effects = [StorageDelete]\<rparr>)
                 else if messageRole \<noteq> User then
                   \<lparr>response = Response ''Non-user message ignored'' 200, storage = store,
                    effects = []\<rparr>
                 else processUserMessage e store latestMessage))"

text \<open>\<open>onChatMessage\<close> of the duplicate-detecting version of the agent.\<close>

definition isDuplicate :: "stored_message list \<Rightarrow> js_string \<Rightarrow> bool" where
  "isDuplicate storedHistory userMessageContent =
     list_ex (\<lambda>msg. role msg = User \<and> content msg = userMessageContent) storedHistory"

definition onChatMessage_dup ::
    "env \<Rightarrow> stored_message list option \<Rightarrow> ui_message list \<Rightarrow> outcome" where
  "onChatMessage_dup e store messages =
     (let storedHistory = loadHistory store
      in case getLatestUserMessage messages of
           None \<Rightarrow> \<lparr>response = Response ''No valid message'' 200, storage = store, effects = []\<rparr>
         | Some latestUserMessage \<Rightarrow>
             (let userMessageContent = extractContent latestUserMessage
              in if isDuplicate storedHistory userMessageContent then
                   \<lparr>response = Response ''Duplicate message'' 200, storage = store, effects = []\<rparr>
                 else processUserMessage e store latestUserMessage))"

section \<open>Sample data\<close>

text \<open>A log of \<open>n\<close> pairwise different entries, the oldest first.\<close>

definition sample_entry :: "nat \<Rightarrow> stored_message" where
  "sample_entry i = \<lparr>role = User, content = replicate (Suc i) 0x61, metadata = None\<rparr>"

definition sample_log :: "nat \<Rightarrow> stored_message list" where
  "sample_log n = map sample_entry [0..<n]"

text \<open>A UI message with one text part.\<close>

definition text_message :: "role \<Rightarrow> string \<Rightarrow> ui_message" where
  "text_message r s =
     \<lparr>ui_role = r, parts = Some [\<lparr>ptype = lit ''text'', ptext = Some (lit s)\<rparr>],
      ui_metadata = None\<rparr>"

section \<open>The specification's text extraction\<close>

text \<open>
  The spec's \<open>extractText\<close>, following its words: the concatenation of the text-typed
  parts of a message in their order, the empty string when there is none; parts of any
  other type are ignored.
\<close>

definition text_typed :: "part \<Rightarrow> bool" where
  "text_typed p = (ptype p = lit ''text'')"

definition textSegments :: "ui_message \<Rightarrow> js_string list" where
  "textSegments message =
     map (\<lambda>p. case ptext p of None \<Rightarrow> [] | Some t \<Rightarrow> t)
       (filter text_typed (case parts message of None \<Rightarrow> [] | Some ps \<Rightarrow> ps))"

definition spec_extractText :: "ui_message \<Rightarrow> js_string" where
  "spec_extractText message = concat (textSegments message)"

section \<open>Sample messages and environment\<close>

definition mixed_message :: ui_message where
  "mixed_message =
     \<lparr>ui_role = User,
      parts = Some [\<lparr>ptype = lit ''text'', ptext = Some (lit '' a '')\<rparr>,
                    \<lparr>ptype = lit ''file'', ptext = None\<rparr>,
                    \<lparr>ptype = lit ''reasoning'', ptext = Some (lit ''zz'')\<rparr>,
                    \<lparr>ptype = lit ''text'', ptext = Some (lit ''b '')\<rparr>],
      ui_metadata = None\<rparr>"

definition file_message :: ui_message where
  "file_message =
     \<lparr>ui_role = User,
      parts = Some [\<lparr>ptype = lit ''file'', ptext = None\<rparr>,
                    \<lparr>ptype = lit ''reasoning'', ptext = Some (lit ''zz'')\<rparr>],
      ui_metadata = None\<rparr>"

definition sample_stored :: stored_message where
  "sample_stored =
     \<lparr>role = Assistant, content = lit ''It is a goal.'',
      metadata = Some \<lparr>createdAt = lit ''2025-01-01T00:00:00.000Z''\<rparr>\<rparr>"

definition sample_env :: env where
  "sample_env =
     \<lparr>now = lit ''2025-06-01T10:00:00.000Z'',
      convert_now = lit ''2025-06-01T10:00:02.000Z'',
      assistant_now = lit ''2025-06-01T10:00:02.500Z'',
      event_text = Some (lit ''Offside, Law 11.'')\<rparr>"

section \<open>What a finished turn computes\<close>

text \<open>The two messages that the \<open>onFinish\<close> callback appends to the log.\<close>

definition userStored :: "env \<Rightarrow> ui_message \<Rightarrow> stored_message" where
  "userStored e m =
     \<lparr>role = ui_role m, content = extractContent m,
      metadata = Some \<lparr>createdAt = (if now e \<noteq> [] then now e else convert_now e)\<rparr>\<rparr>"

definition assistantStored :: "env \<Rightarrow> js_string \<Rightarrow> stored_message" where
  "assistantStored e t =
     \<lparr>role = Assistant, content = t, metadata = Some \<lparr>createdAt = assistant_now e\<rparr>\<rparr>"

text \<open>The context sent to the model: the recent history and the timestamped message.\<close>

definition contextOf :: "env \<Rightarrow> stored_message list option \<Rightarrow> ui_message \<Rightarrow> ui_message list" where
  "contextOf e store m =
     map toUIMessage (getRecentMessages (loadHistory store)) @ [userMessageWithTimestamp m (now e)]"

section \<open>Windowing and trimming\<close>

lemma slice_neg_drop:
  "0 < n \<Longrightarrow> n \<le> length xs \<Longrightarrow> slice (- int n) xs = drop (length xs - n) xs"
  by (simp add: slice_def Let_def nat_diff_distrib')

lemma getRecentMessages_short:
  "length ms \<le> 15 \<Longrightarrow> getRecentMessages ms = ms"
  by (simp add: getRecentMessages_def MAX_MESSAGES_IN_CONTEXT_def)

lemma getRecentMessages_long:
  "15 < length ms \<Longrightarrow> getRecentMessages ms = drop (length ms - 15) ms"
  using slice_neg_drop [of 15 ms]
  by (simp add: getRecentMessages_def MAX_MESSAGES_IN_CONTEXT_def)

lemma trimStoredHistory_short:
  "length ms \<le> 100 \<Longrightarrow> trimStoredHistory ms = ms"
  by (simp add: trimStoredHistory_def MAX_STORED_MESSAGES_def)

lemma trimStoredHistory_long:
  "100 < length ms \<Longrightarrow> trimStoredHistory ms = drop (length ms - 100) ms"
  using slice_neg_drop [of 100 ms]
  by (simp add: trimStoredHistory_def MAX_STORED_MESSAGES_def)

text \<open>
  Claim C2. A log no longer than the cap (15 for the context window, 100 for the storage)
  is returned unchanged by \<open>getRecentMessages\<close> and \<open>trimStoredHistory\<close>; of a longer
  log the result has exactly cap entries and is the suffix of that length, in the
  original order.
\<close>

theorem window_and_trim:
  "(length ms \<le> 15 \<longrightarrow> getRecentMessages ms = ms) \<and>
   (15 < length ms \<longrightarrow>
      length (getRecentMessages ms) = 15 \<and>
      getRecentMessages ms = drop (length ms - 15) ms \<and>
      suffix (getRecentMessages ms) ms) \<and>
   (length ms \<le> 100 \<longrightarrow> trimStoredHistory ms = ms) \<and>
   (100 < length ms \<longrightarrow>
      length (trimStoredHistory ms) = 100 \<and>
      trimStoredHistory ms = drop (length ms - 100) ms \<and>
      suffix (trimStoredHistory ms) ms)"
  by (simp add: getRecentMessages_short getRecentMessages_long
        trimStoredHistory_short trimStoredHistory_long suffix_drop)

theorem window_and_trim_witness:
  "getRecentMessages (sample_log 15) = sample_log 15 \<and>
   getRecentMessages (sample_log 16) = map sample_entry [1..<16] \<and>
   trimStoredHistory (sample_log 100) = sample_log 100 \<and>
   trimStoredHistory (sample_log 101) = map sample_entry [1..<101]"
  using window_and_trim [of "sample_log 15"] window_and_trim [of "sample_log 16"]
    window_and_trim [of "sample_log 100"] window_and_trim [of "sample_log 101"]
  by (simp add: sample_log_def drop_map)

section \<open>Selecting the inbound message\<close>

lemma getLatestMessage_loop_find:
  "i < int (length ms) \<Longrightarrow>
   getLatestMessage_loop ms i =
     find (\<lambda>m. extractContent m \<noteq> []) (rev (take (nat (i + 1)) ms))"
proof (induction ms i rule: getLatestMessage_loop.induct)
  case (1 ms i)
  show ?case
  proof (cases "i \<ge> 0")
    case False
    then show ?thesis by (simp add: getLatestMessage_loop.simps)
  next
    case True
    then have t: "take (nat (i + 1)) ms = take (nat i) ms @ [ms ! nat i]"
      using 1(2) by (simp add: nat_add_distrib take_Suc_conv_app_nth)
    show ?thesis
    proof (cases "extractContent (ms ! nat i) = []")
      case e: True
      have "getLatestMessage_loop ms i = getLatestMessage_loop ms (i - 1)"
        using True e by (subst getLatestMessage_loop.simps) simp
      also have "\<dots> = find (\<lambda>m. extractContent m \<noteq> []) (rev (take (nat (i - 1 + 1)) ms))"
        using 1(1)[OF True refl refl] e 1(2) by simp
      finally show ?thesis using t e by simp
    next
      case ne: False
      have "getLatestMessage_loop ms i = Some (ms ! nat i)"
        using True ne by (subst getLatestMessage_loop.simps) simp
      then show ?thesis using t ne by simp
    qed
  qed
qed

lemma getLatestMessage_find:
  "getLatestMessage ms = find (\<lambda>m. extractContent m \<noteq> []) (rev ms)"
  using getLatestMessage_loop_find [of "int (length ms) - 1" ms]
  by (simp add: getLatestMessage_def)

lemma getLatestUserMessage_loop_find:
  "i < int (length ms) \<Longrightarrow>
   getLatestUserMessage_loop ms i =
     find (\<lambda>m. ui_role m = User \<and> extractContent m \<noteq> []) (rev (take (nat (i + 1)) ms))"
proof (induction ms i rule: getLatestUserMessage_loop.induct)
  case (1 ms i)
  show ?case
  proof (cases "i \<ge> 0")
    case False
    then show ?thesis by (simp add: getLatestUserMessage_loop.simps)
  next
    case True
    then have t: "take (nat (i + 1)) ms = take (nat i) ms @ [ms ! nat i]"
      using 1(2) by (simp add: nat_add_distrib take_Suc_conv_app_nth)
    show ?thesis
    proof (cases "ui_role (ms ! nat i) = User \<and> extractContent (ms ! nat i) \<noteq> []")
      case e: False
      have "getLatestUserMessage_loop ms i = getLatestUserMessage_loop ms (i - 1)"
        using True e by (subst getLatestUserMessage_loop.simps) auto
      also have "\<dots> = find (\<lambda>m. ui_role m = User \<and> extractContent m \<noteq> [])
                         (rev (take (nat (i - 1 + 1)) ms))"
        using 1(1)[OF True refl] e 1(2) by simp
      finally show ?thesis using t e by auto
    next
      case ne: True
      have "getLatestUserMessage_loop ms i = Some (ms ! nat i)"
        using True ne by (subst getLatestUserMessage_loop.simps) simp
      then show ?thesis using t ne by simp
    qed
  qed
qed

lemma getLatestUserMessage_find:
  "getLatestUserMessage ms = find (\<lambda>m. ui_role m = User \<and> extractContent m \<noteq> []) (rev ms)"
  using getLatestUserMessage_loop_find [of "int (length ms) - 1" ms]
  by (simp add: getLatestUserMessage_def)

lemma find_rev_Some_iff:
  "find P (rev ms) = Some m \<longleftrightarrow>
     (\<exists>older newer. ms = older @ m # newer \<and> P m \<and> (\<forall>x \<in> set newer. \<not> P x))"
proof (induction ms rule: rev_induct)
  case Nil
  then show ?case by simp
next
  case (snoc x xs)
  show ?case
  proof (cases "P x")
    case True
    have "(\<exists>older newer. xs @ [x] = older @ m # newer \<and> P m \<and> (\<forall>y \<in> set newer. \<not> P y))
          \<longleftrightarrow> x = m"
    proof
      assume "\<exists>older newer. xs @ [x] = older @ m # newer \<and> P m \<and> (\<forall>y \<in> set newer. \<not> P y)"
      then obtain older newer where d: "xs @ [x] = older @ m # newer"
        and n: "\<forall>y \<in> set newer. \<not> P y" by blast
      show "x = m"
      proof (cases newer rule: rev_cases)
        case Nil
        with d show ?thesis by simp
      next
        case (snoc ys y)
        with d have "x = y" by (metis append_Cons append_assoc last_snoc)
        with snoc n True show ?thesis by simp
      qed
    next
      assume "x = m"
      with True have "xs @ [x] = xs @ m # [] \<and> P m \<and> (\<forall>y \<in> set []. \<not> P y)" by simp
      then show "\<exists>older newer. xs @ [x] = older @ m # newer \<and> P m \<and> (\<forall>y \<in> set newer. \<not> P y)"
        by blast
    qed
    with True show ?thesis by simp
  next
    case False
    have "(\<exists>older newer. xs @ [x] = older @ m # newer \<and> P m \<and> (\<forall>y \<in> set newer. \<not> P y))
          \<longleftrightarrow> (\<exists>older newer. xs = older @ m # newer \<and> P m \<and> (\<forall>y \<in> set newer. \<not> P y))"
    proof
      assume "\<exists>older newer. xs @ [x] = older @ m # newer \<and> P m \<and> (\<forall>y \<in> set newer. \<not> P y)"
      then obtain older newer where d: "xs @ [x] = older @ m # newer" and pm: "P m"
        and n: "\<forall>y \<in> set newer. \<not> P y" by blast
      show "\<exists>older newer. xs = older @ m # newer \<and> P m \<and> (\<forall>y \<in> set newer. \<not> P y)"
      proof (cases newer rule: rev_cases)
        case Nil
        with d pm False show ?thesis by simp
      next
        case (snoc ys y)
        with d have "xs = older @ m # ys" by (metis append_Cons append_assoc butlast_snoc)
        with snoc n pm show ?thesis by auto
      qed
    next
      assume "\<exists>older newer. xs = older @ m # newer \<and> P m \<and> (\<forall>y \<in> set newer. \<not> P y)"
      then obtain older newer where d: "xs = older @ m # newer" and pm: "P m"
        and n: "\<forall>y \<in> set newer. \<not> P y" by blast
      then have "xs @ [x] = older @ m # (newer @ [x]) \<and> P m \<and> (\<forall>y \<in> set (newer @ [x]). \<not> P y)"
        using False by simp
      then show "\<exists>older newer. xs @ [x] = older @ m # newer \<and> P m \<and> (\<forall>y \<in> set newer. \<not> P y)"
        by blast
    qed
    with False snoc.IH show ?thesis by simp
  qed
qed

lemma find_rev_None_iff: "find P (rev ms) = None \<longleftrightarrow> (\<forall>x \<in> set ms. \<not> P x)"
  by (auto simp: find_None_iff)

text \<open>
  Claim C7. The selection scans the batch from the most recent message to the oldest and
  returns the first message whose extracted text is not empty (\<open>getLatestUserMessage\<close>
  also requires the user role); it returns nothing exactly when there is no such message.
  Over the batch system "hi", user "", user "real question" it returns the last message.
\<close>

theorem select_latest:
  "(getLatestMessage ms = Some m \<longleftrightarrow>
      (\<exists>older newer. ms = older @ m # newer \<and> extractContent m \<noteq> [] \<and>
         (\<forall>x \<in> set newer. extractContent x = []))) \<and>
   (getLatestMessage ms = None \<longleftrightarrow> (\<forall>x \<in> set ms. extractContent x = [])) \<and>
   (getLatestUserMessage ms = Some m \<longleftrightarrow>
      (\<exists>older newer. ms = older @ m # newer \<and> ui_role m = User \<and> extractContent m \<noteq> [] \<and>
         (\<forall>x \<in> set newer. \<not> (ui_role x = User \<and> extractContent x \<noteq> [])))) \<and>
   (getLatestUserMessage ms = None \<longleftrightarrow>
      (\<forall>x \<in> set ms. \<not> (ui_role x = User \<and> extractContent x \<noteq> []))) \<and>
   getLatestMessage [text_message System ''hi'', text_message User '''',
                     text_message User ''real question'']
     = Some (text_message User ''real question'') \<and>
   getLatestUserMessage [text_message System ''hi'', text_message User '''',
                     text_message User ''real question'']
     = Some (text_message User ''real question'')"
proof -
  have ex: "extractContent (text_message r '''') = []" 
     "extractContent (text_message r ''real question'') \<noteq> []" for r
    by (simp_all add: extractContent_def text_message_def lit_def truthy_def trim_def is_ws_def)
  have a: "getLatestMessage ms = Some m \<longleftrightarrow>
      (\<exists>older newer. ms = older @ m # newer \<and> extractContent m \<noteq> [] \<and>
         (\<forall>x \<in> set newer. extractContent x = []))"
    unfolding getLatestMessage_find find_rev_Some_iff by simp
  have b: "getLatestMessage ms = None \<longleftrightarrow> (\<forall>x \<in> set ms. extractContent x = [])"
    unfolding getLatestMessage_find find_rev_None_iff by simp
  have c: "getLatestUserMessage ms = Some m \<longleftrightarrow>
      (\<exists>older newer. ms = older @ m # newer \<and> ui_role m = User \<and> extractContent m \<noteq> [] \<and>
         (\<forall>x \<in> set newer. \<not> (ui_role x = User \<and> extractContent x \<noteq> [])))"
    unfolding getLatestUserMessage_find find_rev_Some_iff by simp
  have d: "getLatestUserMessage ms = None \<longleftrightarrow>
      (\<forall>x \<in> set ms. \<not> (ui_role x = User \<and> extractContent x \<noteq> []))"
    unfolding getLatestUserMessage_find find_rev_None_iff by simp
  have e: "getLatestMessage [text_message System ''hi'', text_message User '''',
                     text_message User ''real question'']
     = Some (text_message User ''real question'')"
    unfolding getLatestMessage_find using ex by simp
  have f: "getLatestUserMessage [text_message System ''hi'', text_message User '''',
                     text_message User ''real question'']
     = Some (text_message User ''real question'')"
    unfolding getLatestUserMessage_find using ex by (simp add: text_message_def)
  from a b c d e f show ?thesis by blast
qed

theorem select_latest_witness:
  "getLatestMessage [text_message User '''', text_message Assistant '' ''] = None \<and>
   getLatestUserMessage [text_message User '''', text_message Assistant ''hi''] = None \<and>
   getLatestMessage [text_message User ''one'', text_message Assistant ''two'', text_message User '' '']
      = Some (text_message Assistant ''two'') \<and>
   getLatestUserMessage [text_message User ''one'', text_message Assistant ''two'', text_message User '' '']
      = Some (text_message User ''one'')"
proof -
  have ex: "extractContent (text_message r '''') = []" "extractContent (text_message r '' '') = []"
     "extractContent (text_message r ''hi'') \<noteq> []"
     "extractContent (text_message r ''one'') \<noteq> []"
     "extractContent (text_message r ''two'') \<noteq> []" for r
    by (simp_all add: extractContent_def text_message_def lit_def truthy_def trim_def is_ws_def)
  have r: "ui_role (text_message r s) = r" for r s by (simp add: text_message_def)
  have 1: "getLatestMessage [text_message User '''', text_message Assistant '' ''] = None"
    using select_latest [of "[text_message User '''', text_message Assistant '' '']"] ex
    by simp
  have 2: "getLatestUserMessage [text_message User '''', text_message Assistant ''hi''] = None"
    using select_latest [of "[text_message User '''', text_message Assistant ''hi'']"] ex r
    by simp
  have 3: "getLatestMessage [text_message User ''one'', text_message Assistant ''two'', text_message User '' '']
      = Some (text_message Assistant ''two'')"
    using select_latest [of "[text_message User ''one'', text_message Assistant ''two'', text_message User '' '']"
        "text_message Assistant ''two''"] ex
    by (metis append_Cons append_Nil empty_iff empty_set set_ConsD)
  have 4: "getLatestUserMessage [text_message User ''one'', text_message Assistant ''two'', text_message User '' '']
      = Some (text_message User ''one'')"
    using select_latest [of "[text_message User ''one'', text_message Assistant ''two'', text_message User '' '']"
        "text_message User ''one''"] ex r
    by (metis append_Nil empty_iff empty_set set_ConsD role.distinct(1))
  from 1 2 3 4 show ?thesis by blast
qed

section \<open>Extracting the text\<close>

lemma trim_Nil: "trim [] = []"
  by (simp add: trim_def)

lemma extract_foldl:
  "foldl (\<lambda>content part.
            if ptype part = lit ''text'' \<and> truthy (ptext part)
            then content @ the (ptext part) else content) acc ps
   = acc @ concat (map (\<lambda>p. case ptext p of None \<Rightarrow> [] | Some t \<Rightarrow> t) (filter text_typed ps))"
  by (induction ps arbitrary: acc) (auto simp: text_typed_def truthy_def split: option.splits)

lemma extractContent_trim: "extractContent m = trim (spec_extractText m)"
  by (cases "parts m")
    (simp_all add: extractContent_def spec_extractText_def textSegments_def extract_foldl)

text \<open>
  Claim C6, as stated: \<open>extractContent\<close> returns the concatenation of the text-typed parts.
  It fails on a message whose text parts are " a " and "b ": the concatenation is " a b ",
  the function returns "a b".
\<close>

theorem extractContent_untrimmed_counterexample:
  "spec_extractText mixed_message = lit '' a b '' \<and>
   extractContent mixed_message = lit ''a b'' \<and>
   extractContent mixed_message \<noteq> spec_extractText mixed_message"
  by (simp add: extractContent_trim spec_extractText_def textSegments_def mixed_message_def
        text_typed_def lit_def trim_def is_ws_def)

text \<open>
  Claim C6, amended. \<open>extractContent\<close> returns the concatenation of the text-typed parts,
  in their order and with the other parts ignored, with the whitespace at both ends of
  the result removed; for a message with no text-typed part it returns the empty string.
\<close>

theorem extractContent_spec:
  "extractContent message = trim (spec_extractText message) \<and>
   ((\<forall>p \<in> set (case parts message of None \<Rightarrow> [] | Some ps \<Rightarrow> ps). ptype p \<noteq> lit ''text'')
      \<longrightarrow> extractContent message = [])"
proof -
  have "spec_extractText message = []"
    if "\<forall>p \<in> set (case parts message of None \<Rightarrow> [] | Some ps \<Rightarrow> ps). ptype p \<noteq> lit ''text''"
  proof -
    from that have "filter text_typed (case parts message of None \<Rightarrow> [] | Some ps \<Rightarrow> ps) = []"
      by (simp add: text_typed_def filter_empty_conv)
    then show ?thesis by (simp add: spec_extractText_def textSegments_def)
  qed
  then show ?thesis by (simp add: extractContent_trim trim_Nil)
qed

theorem extractContent_spec_witness:
  "extractContent file_message = [] \<and> extractContent mixed_message = lit ''a b''"
  using extractContent_spec [of file_message] extractContent_spec [of mixed_message]
  by (simp add: spec_extractText_def textSegments_def mixed_message_def file_message_def
        text_typed_def lit_def trim_def is_ws_def)

section \<open>Conversion\<close>

lemma extractContent_toUIMessage: "extractContent (toUIMessage m) = trim (content m)"
  by (simp add: extractContent_def toUIMessage_def truthy_def trim_Nil)

text \<open>
  Claim C9. For a stored message whose content is not empty and equals its trimmed form,
  and whose metadata carries a (non-empty) \<open>createdAt\<close> timestamp, converting it to a UI
  message and back without a timestamp argument gives a stored message with the same
  role, content and \<open>createdAt\<close>.
\<close>

theorem stored_roundtrip:
  assumes "content m \<noteq> []" and "trim (content m) = content m"
    and "metadata m = Some md" and "createdAt md \<noteq> []"
  shows "\<exists>s. toStoredMessage clock (toUIMessage m) None = Some s \<and>
             role s = role m \<and> content s = content m \<and>
             metadata s = Some \<lparr>createdAt = createdAt md\<rparr> \<and> s = m"
proof -
  have "toStoredMessage clock (toUIMessage m) None =
          Some \<lparr>role = role m, content = content m, metadata = Some \<lparr>createdAt = createdAt md\<rparr>\<rparr>"
    using assms
    by (simp add: toStoredMessage_def extractContent_toUIMessage truthy_def)
      (simp add: toUIMessage_def)
  moreover have "\<lparr>role = role m, content = content m,
                   metadata = Some \<lparr>createdAt = createdAt md\<rparr>\<rparr> = m"
    using assms(3) by (cases m, cases md) simp
  ultimately show ?thesis using assms(3) by simp
qed

theorem stored_roundtrip_witness:
  "toStoredMessage (lit ''2026-01-01T00:00:00.000Z'') (toUIMessage sample_stored) None
     = Some sample_stored"
proof -
  have "content sample_stored \<noteq> []" "trim (content sample_stored) = content sample_stored"
    "metadata sample_stored = Some \<lparr>createdAt = lit ''2025-01-01T00:00:00.000Z''\<rparr>"
    "createdAt \<lparr>createdAt = lit ''2025-01-01T00:00:00.000Z''\<rparr> \<noteq> []"
    by (simp_all add: sample_stored_def lit_def trim_def is_ws_def)
  from stored_roundtrip [OF this, of "lit ''2026-01-01T00:00:00.000Z''"]
  show ?thesis by auto
qed

section \<open>Properties of the turn handler\<close>

lemma extractContent_retimestamp [simp]:
  "extractContent (userMessageWithTimestamp m t) = extractContent m"
  by (simp add: extractContent_def userMessageWithTimestamp_def)

lemma getLatestMessage_nonempty:
  "getLatestMessage ms = Some m \<Longrightarrow> extractContent m \<noteq> []"
  by (simp add: getLatestMessage_find find_Some_iff) blast

lemma getLatestUserMessage_nonempty:
  "getLatestUserMessage ms = Some m \<Longrightarrow> ui_role m = User \<and> extractContent m \<noteq> []"
  by (simp add: getLatestUserMessage_find find_Some_iff) blast

lemma toStoredMessage_nonempty:
  "extractContent m \<noteq> [] \<Longrightarrow> toStoredMessage clock m ts \<noteq> None"
  by (simp add: toStoredMessage_def)

lemma toStoredMessage_retimestamp:
  "extractContent m \<noteq> [] \<Longrightarrow>
   toStoredMessage (convert_now e) (userMessageWithTimestamp m (now e)) (Some (now e))
     = Some (userStored e m)"
  by (simp add: toStoredMessage_def userStored_def truthy_def)
    (simp add: userMessageWithTimestamp_def split: option.splits)

lemma processUserMessage_finished:
  "extractContent m \<noteq> [] \<Longrightarrow> event_text e = Some t \<Longrightarrow>
   processUserMessage e store m =
     \<lparr>response = UIMessageStreamResponse,
      storage = Some (trimStoredHistory (loadHistory store @ [userStored e m, assistantStored e t])),
      effects = [StreamText (contextOf e store m),
                 StoragePut (trimStoredHistory
                   (loadHistory store @ [userStored e m, assistantStored e t]))]\<rparr>"
  by (simp add: processUserMessage_def Let_def toStoredMessage_retimestamp
        assistantStored_def contextOf_def)

lemma processUserMessage_unfinished:
  "event_text e = None \<Longrightarrow>
   processUserMessage e store m =
     \<lparr>response = UIMessageStreamResponse, storage = store,
      effects = [StreamText (contextOf e store m)]\<rparr>"
  by (simp add: processUserMessage_def Let_def contextOf_def)

lemma trimStoredHistory_drop:
  "trimStoredHistory xs = drop (length xs - 100) xs"
  by (cases "length xs \<le> 100") (simp_all add: trimStoredHistory_short trimStoredHistory_long)

lemma trimStoredHistory_le: "length (trimStoredHistory xs) \<le> 100"
  by (simp add: trimStoredHistory_drop)

lemma processUserMessage_put:
  assumes "extractContent m \<noteq> []"
    and "StoragePut h \<in> set (effects (processUserMessage e store m))"
  shows "storage (processUserMessage e store m) = Some h \<and> length h \<le> 100 \<and>
         (\<exists>u a. h = drop (length (loadHistory store) + 2 - 100) (loadHistory store @ [u, a]))"
proof (cases "event_text e")
  case None
  with assms(2) show ?thesis by (simp add: processUserMessage_unfinished)
next
  case (Some t)
  from assms(2) have h: "h = trimStoredHistory (loadHistory store @ [userStored e m, assistantStored e t])"
    by (simp add: processUserMessage_finished [OF assms(1) Some])
  then have "h = drop (length (loadHistory store) + 2 - 100)
                   (loadHistory store @ [userStored e m, assistantStored e t])"
    by (simp add: trimStoredHistory_drop)
  then have "\<exists>u a. h = drop (length (loadHistory store) + 2 - 100) (loadHistory store @ [u, a])"
    by blast
  moreover have "length h \<le> 100" using h by (simp add: trimStoredHistory_le)
  moreover have "storage (processUserMessage e store m) = Some h"
    using h by (simp add: processUserMessage_finished [OF assms(1) Some])
  ultimately show ?thesis by blast
qed

lemma onChatMessage_cases:
  "(getLatestMessage ms = None \<and>
      onChatMessage e store ms =
        \<lparr>response = Response ''No valid message'' 200, storage = store, effects = []\<rparr>) \<or>
   (\<exists>m. getLatestMessage ms = Some m \<and> ui_role m = System \<and>
      extractContent m = lit ''(clear requested)'' \<and>
      onChatMessage e store ms =
        \<lparr>response = ClearResponse True (length (loadHistory store)) 200, storage = None,
         effects = [StorageDelete]\<rparr>) \<or>
   (\<exists>m. getLatestMessage ms = Some m \<and> ui_role m \<noteq> User \<and>
      \<not> (ui_role m = System \<and> extractContent m = lit ''(clear requested)'') \<and>
      onChatMessage e store ms =
        \<lparr>response = Response ''Non-user message ignored'' 200, storage = store, effects = []\<rparr>) \<or>
   (\<exists>m. getLatestMessage ms = Some m \<and> ui_role m = User \<and> extractContent m \<noteq> [] \<and>
      onChatMessage e store ms = processUserMessage e store m)"
proof (cases "getLatestMessage ms")
  case None
  then show ?thesis by (simp add: onChatMessage_def)
next
  case (Some m)
  then have "extractContent m \<noteq> []" by (rule getLatestMessage_nonempty)
  with Some show ?thesis by (auto simp: onChatMessage_def Let_def)
qed

lemma onChatMessage_dup_cases:
  "(getLatestUserMessage ms = None \<and>
      onChatMessage_dup e store ms =
        \<lparr>response = Response ''No valid message'' 200, storage = store, effects = []\<rparr>) \<or>
   (\<exists>m. getLatestUserMessage ms = Some m \<and> isDuplicate (loadHistory store) (extractContent m) \<and>
      onChatMessage_dup e store ms =
        \<lparr>response = Response ''Duplicate message'' 200, storage = store, effects = []\<rparr>) \<or>
   (\<exists>m. getLatestUserMessage ms = Some m \<and> ui_role m = User \<and> extractContent m \<noteq> [] \<and>
      \<not> isDuplicate (loadHistory store) (extractContent m) \<and>
      onChatMessage_dup e store ms = processUserMessage e store m)"
proof (cases "getLatestUserMessage ms")
  case None
  then show ?thesis by (simp add: onChatMessage_dup_def)
next
  case (Some m)
  then have "ui_role m = User \<and> extractContent m \<noteq> []" by (rule getLatestUserMessage_nonempty)
  with Some show ?thesis by (auto simp: onChatMessage_dup_def Let_def)
qed

lemma lit_nonempty_eval:
  "extractContent (text_message r ''real question'') = lit ''real question''"
  "extractContent (text_message r ''(clear requested)'') = lit ''(clear requested)''"
  "extractContent (text_message r ''It is a goal.'') = lit ''It is a goal.''"
  by (simp_all add: extractContent_def text_message_def lit_def truthy_def trim_def is_ws_def)

lemma text_message_role [simp]: "ui_role (text_message r s) = r"
  by (simp add: text_message_def)

lemma getLatestMessage_single:
  "extractContent m \<noteq> [] \<Longrightarrow> getLatestMessage [m] = Some m"
  by (simp add: getLatestMessage_find)

lemma getLatestUserMessage_single:
  "ui_role m = User \<Longrightarrow> extractContent m \<noteq> [] \<Longrightarrow> getLatestUserMessage [m] = Some m"
  by (simp add: getLatestUserMessage_find)

lemma length_sample_log [simp]: "length (sample_log n) = n"
  by (simp add: sample_log_def)

text \<open>
  Claim C4. When the selected inbound message has the system role and its extracted
  content is exactly "(clear requested)", the handler deletes the stored log, does not
  call the model and answers with the number of deleted messages; against a stored log
  of 5 entries the log is then empty and the answer carries the count 5.
\<close>

theorem clear_request:
  assumes "getLatestMessage ms = Some m" and "ui_role m = System"
    and "extractContent m = lit ''(clear requested)''"
  shows "onChatMessage e store ms =
           \<lparr>response = ClearResponse True (length (loadHistory store)) 200, storage = None,
            effects = [StorageDelete]\<rparr> \<and>
         loadHistory (storage (onChatMessage e store ms)) = [] \<and>
         (\<forall>h. store = Some h \<and> length h = 5 \<longrightarrow>
            response (onChatMessage e store ms) = ClearResponse True 5 200 \<and>
            length (loadHistory (storage (onChatMessage e store ms))) = 0)"
  using assms by (auto simp: onChatMessage_def Let_def loadHistory_def)

theorem clear_request_witness:
  "onChatMessage sample_env (Some (sample_log 5)) [text_message System ''(clear requested)'']
     = \<lparr>response = ClearResponse True 5 200, storage = None, effects = [StorageDelete]\<rparr>"
proof -
  have "getLatestMessage [text_message System ''(clear requested)'']
          = Some (text_message System ''(clear requested)'')"
    by (simp add: getLatestMessage_single lit_nonempty_eval lit_def)
  from clear_request [OF this, of sample_env "Some (sample_log 5)"]
  show ?thesis by (simp add: lit_nonempty_eval loadHistory_def)
qed

text \<open>
  Claim C8. When the selected inbound message has a role other than user and is not the
  clear request, the handler answers with a no-op status, calls no model and leaves the
  stored log as it is.
\<close>

theorem non_user_ignored:
  assumes "getLatestMessage ms = Some m" and "ui_role m \<noteq> User"
    and "\<not> (ui_role m = System \<and> extractContent m = lit ''(clear requested)'')"
  shows "onChatMessage e store ms =
           \<lparr>response = Response ''Non-user message ignored'' 200, storage = store, effects = []\<rparr>"
  using assms by (auto simp: onChatMessage_def Let_def)

theorem non_user_ignored_witness:
  "onChatMessage sample_env (Some (sample_log 5)) [text_message Assistant ''It is a goal.'']
     = \<lparr>response = Response ''Non-user message ignored'' 200, storage = Some (sample_log 5),
        effects = []\<rparr>"
proof -
  have "getLatestMessage [text_message Assistant ''It is a goal.'']
          = Some (text_message Assistant ''It is a goal.'')"
    by (simp add: getLatestMessage_single lit_nonempty_eval lit_def)
  from non_user_ignored [OF this, of sample_env "Some (sample_log 5)"]
  show ?thesis by simp
qed

text \<open>
  Claim C5. In the duplicate-detecting handler, when the stored log contains a user
  message whose content equals the extracted text of the inbound user message, the
  handler writes nothing to the storage, calls no model and answers with a no-op status.
\<close>

theorem duplicate_noop:
  assumes "s \<in> set (loadHistory store)" and "role s = User" and "content s = extractContent m"
  shows "(getLatestUserMessage ms = Some m \<longrightarrow>
            onChatMessage_dup e store ms =
              \<lparr>response = Response ''Duplicate message'' 200, storage = store, effects = []\<rparr>) \<and>
         (ui_role m = User \<longrightarrow>
            storage (onChatMessage_dup e store [m]) = store \<and>
            effects (onChatMessage_dup e store [m]) = [] \<and>
            (\<exists>body. response (onChatMessage_dup e store [m]) = Response body 200))"
proof -
  have dup: "isDuplicate (loadHistory store) (extractContent m)"
    using assms by (auto simp: isDuplicate_def list_ex_iff)
  have a: "onChatMessage_dup e store ms' =
             \<lparr>response = Response ''Duplicate message'' 200, storage = store, effects = []\<rparr>"
    if "getLatestUserMessage ms' = Some m" for ms'
    using that dup by (simp add: onChatMessage_dup_def Let_def)
  have b: "storage (onChatMessage_dup e store [m]) = store \<and>
           effects (onChatMessage_dup e store [m]) = [] \<and>
           (\<exists>body. response (onChatMessage_dup e store [m]) = Response body 200)"
    if "ui_role m = User"
  proof (cases "extractContent m = []")
    case True
    then have "getLatestUserMessage [m] = None" by (simp add: getLatestUserMessage_find)
    then show ?thesis by (simp add: onChatMessage_dup_def)
  next
    case False
    with that have "getLatestUserMessage [m] = Some m" by (simp add: getLatestUserMessage_single)
    then show ?thesis by (simp add: a)
  qed
  from a b show ?thesis by blast
qed

theorem duplicate_noop_witness:
  "onChatMessage_dup sample_env
     (Some [\<lparr>role = User, content = lit ''real question'', metadata = None\<rparr>])
     [text_message User ''real question'']
   = \<lparr>response = Response ''Duplicate message'' 200,
      storage = Some [\<lparr>role = User, content = lit ''real question'', metadata = None\<rparr>],
      effects = []\<rparr>"
proof -
  have s: "\<lparr>role = User, content = lit ''real question'', metadata = None\<rparr>
             \<in> set (loadHistory (Some [\<lparr>role = User, content = lit ''real question'',
                                         metadata = None\<rparr>]))"
    by (simp add: loadHistory_def)
  have c: "content \<lparr>role = User, content = lit ''real question'', metadata = None\<rparr>
             = extractContent (text_message User ''real question'')"
    by (simp add: lit_nonempty_eval)
  have g: "getLatestUserMessage [text_message User ''real question'']
             = Some (text_message User ''real question'')"
    by (simp add: getLatestUserMessage_single lit_nonempty_eval lit_def)
  from duplicate_noop [OF s _ c, where e = sample_env and ms = "[text_message User ''real question'']"] g
  show ?thesis by simp
qed

text \<open>
  Claim C10. The conversion failure cannot happen in the turn handler: a message returned
  by \<open>getLatestMessage\<close> or \<open>getLatestUserMessage\<close> has non-empty extracted text,
  re-timestamping does not change its parts, so \<open>toStoredMessage\<close> of the re-timestamped
  message is not null; hence whenever the model was called and its finish event came,
  the storage write is made.
\<close>

theorem conversion_never_fails:
  "(getLatestMessage ms = Some m \<longrightarrow>
      toStoredMessage clock (userMessageWithTimestamp m t) ts \<noteq> None) \<and>
   (getLatestUserMessage ms = Some m \<longrightarrow>
      toStoredMessage clock (userMessageWithTimestamp m t) ts \<noteq> None) \<and>
   (event_text e \<noteq> None \<longrightarrow>
      (\<forall>ctx. StreamText ctx \<in> set (effects (onChatMessage e store ms)) \<longrightarrow>
         (\<exists>h. StoragePut h \<in> set (effects (onChatMessage e store ms))))) \<and>
   (event_text e \<noteq> None \<longrightarrow>
      (\<forall>ctx. StreamText ctx \<in> set (effects (onChatMessage_dup e store ms)) \<longrightarrow>
         (\<exists>h. StoragePut h \<in> set (effects (onChatMessage_dup e store ms)))))"
proof -
  have a: "toStoredMessage clock (userMessageWithTimestamp m t) ts \<noteq> None"
    if "getLatestMessage ms = Some m"
    using getLatestMessage_nonempty [OF that] by (simp add: toStoredMessage_nonempty)
  have b: "toStoredMessage clock (userMessageWithTimestamp m t) ts \<noteq> None"
    if "getLatestUserMessage ms = Some m"
    using getLatestUserMessage_nonempty [OF that] by (simp add: toStoredMessage_nonempty)
  have c: "\<exists>h. StoragePut h \<in> set (effects (onChatMessage e store ms))"
    if "event_text e \<noteq> None" "StreamText ctx \<in> set (effects (onChatMessage e store ms))" for ctx
  proof -
    from that(1) obtain a where ev: "event_text e = Some a" by blast
    from onChatMessage_cases [of ms e store] that(2)
    obtain m' where "extractContent m' \<noteq> []"
      and "onChatMessage e store ms = processUserMessage e store m'"
      by auto
    then show ?thesis by (simp add: processUserMessage_finished [OF _ ev])
  qed
  have d: "\<exists>h. StoragePut h \<in> set (effects (onChatMessage_dup e store ms))"
    if "event_text e \<noteq> None" "StreamText ctx \<in> set (effects (onChatMessage_dup e store ms))"
    for ctx
  proof -
    from that(1) obtain a where ev: "event_text e = Some a" by blast
    from onChatMessage_dup_cases [of ms e store] that(2)
    obtain m' where "extractContent m' \<noteq> []"
      and "onChatMessage_dup e store ms = processUserMessage e store m'"
      by auto
    then show ?thesis by (simp add: processUserMessage_finished [OF _ ev])
  qed
  from a b c d show ?thesis by blast
qed

theorem conversion_never_fails_witness:
  "toStoredMessage (convert_now sample_env)
     (userMessageWithTimestamp (text_message User ''real question'') (now sample_env))
     (Some (now sample_env))
   = Some \<lparr>role = User, content = lit ''real question'',
           metadata = Some \<lparr>createdAt = lit ''2025-06-01T10:00:00.000Z''\<rparr>\<rparr> \<and>
   StoragePut [\<lparr>role = User, content = lit ''real question'',
                metadata = Some \<lparr>createdAt = lit ''2025-06-01T10:00:00.000Z''\<rparr>\<rparr>,
               \<lparr>role = Assistant, content = lit ''Offside, Law 11.'',
                metadata = Some \<lparr>createdAt = lit ''2025-06-01T10:00:02.500Z''\<rparr>\<rparr>]
     \<in> set (effects (onChatMessage sample_env None [text_message User ''real question''])) \<and>
   StoragePut [\<lparr>role = User, content = lit ''real question'',
                metadata = Some \<lparr>createdAt = lit ''2025-06-01T10:00:00.000Z''\<rparr>\<rparr>,
               \<lparr>role = Assistant, content = lit ''Offside, Law 11.'',
                metadata = Some \<lparr>createdAt = lit ''2025-06-01T10:00:02.500Z''\<rparr>\<rparr>]
     \<in> set (effects (onChatMessage_dup sample_env None [text_message User ''real question'']))"
proof -
  let ?m = "text_message User ''real question''"
  have ne: "extractContent ?m \<noteq> []" by (simp add: lit_nonempty_eval lit_def)
  have g: "getLatestMessage [?m] = Some ?m" "getLatestUserMessage [?m] = Some ?m"
    using ne by (simp_all add: getLatestMessage_single getLatestUserMessage_single)
  have ev: "event_text sample_env \<noteq> None" by (simp add: sample_env_def)
  note inst = conversion_never_fails [where ms = "[?m]" and m = ?m
      and clock = "convert_now sample_env" and t = "now sample_env"
      and ts = "Some (now sample_env)" and e = sample_env and store = None]
  have 1: "toStoredMessage (convert_now sample_env)
     (userMessageWithTimestamp ?m (now sample_env)) (Some (now sample_env)) \<noteq> None"
    using inst g by blast
  have us: "userStored sample_env ?m = \<lparr>role = User, content = lit ''real question'',
           metadata = Some \<lparr>createdAt = lit ''2025-06-01T10:00:00.000Z''\<rparr>\<rparr>"
    by (simp add: userStored_def lit_nonempty_eval) (simp add: sample_env_def lit_def)
  have 2: "toStoredMessage (convert_now sample_env)
     (userMessageWithTimestamp ?m (now sample_env)) (Some (now sample_env))
   = Some \<lparr>role = User, content = lit ''real question'',
           metadata = Some \<lparr>createdAt = lit ''2025-06-01T10:00:00.000Z''\<rparr>\<rparr>"
    using 1 toStoredMessage_retimestamp [OF ne, of sample_env] us by simp
  have sel: "onChatMessage sample_env None [?m] = processUserMessage sample_env None ?m"
    "onChatMessage_dup sample_env None [?m] = processUserMessage sample_env None ?m"
    using g by (simp_all add: onChatMessage_def onChatMessage_dup_def Let_def isDuplicate_def
        loadHistory_def)
  have fin: "processUserMessage sample_env None ?m =
     \<lparr>response = UIMessageStreamResponse,
      storage = Some [userStored sample_env ?m, assistantStored sample_env (lit ''Offside, Law 11.'')],
      effects = [StreamText (contextOf sample_env None ?m),
                 StoragePut [userStored sample_env ?m,
                             assistantStored sample_env (lit ''Offside, Law 11.'')]]\<rparr>"
    using processUserMessage_finished [OF ne, of sample_env "lit ''Offside, Law 11.''" None]
    by (simp add: sample_env_def loadHistory_def trimStoredHistory_short)
  have as: "assistantStored sample_env (lit ''Offside, Law 11.'') =
      \<lparr>role = Assistant, content = lit ''Offside, Law 11.'',
                metadata = Some \<lparr>createdAt = lit ''2025-06-01T10:00:02.500Z''\<rparr>\<rparr>"
    by (simp add: assistantStored_def sample_env_def)
  from 2 sel fin us as show ?thesis by simp
qed

lemma processUserMessage_storage_le:
  "extractContent m \<noteq> [] \<Longrightarrow>
   storage (processUserMessage e store m) = store \<or>
   length (loadHistory (storage (processUserMessage e store m))) \<le> 100"
  by (cases "event_text e")
    (simp_all add: processUserMessage_unfinished processUserMessage_finished
       trimStoredHistory_le loadHistory_def)

text \<open>
  Claim C3. Every log that the turn handler writes to the storage has at most 100
  entries: it is the prior history with the exchange appended, with the oldest entries
  dropped when that exceeds 100. The storage after a turn is unchanged, empty, or holds
  at most 100 entries.
\<close>

theorem stored_log_bounded:
  "(\<forall>h. StoragePut h \<in> set (effects (onChatMessage e store ms)) \<longrightarrow>
       storage (onChatMessage e store ms) = Some h \<and> length h \<le> 100 \<and>
       (\<exists>u a. h = drop (length (loadHistory store) + 2 - 100) (loadHistory store @ [u, a]))) \<and>
   (\<forall>h. StoragePut h \<in> set (effects (onChatMessage_dup e store ms)) \<longrightarrow>
       storage (onChatMessage_dup e store ms) = Some h \<and> length h \<le> 100 \<and>
       (\<exists>u a. h = drop (length (loadHistory store) + 2 - 100) (loadHistory store @ [u, a]))) \<and>
   (storage (onChatMessage e store ms) = store \<or>
    length (loadHistory (storage (onChatMessage e store ms))) \<le> 100) \<and>
   (storage (onChatMessage_dup e store ms) = store \<or>
    length (loadHistory (storage (onChatMessage_dup e store ms))) \<le> 100)"
proof -
  have a: "storage (onChatMessage e store ms) = Some h \<and> length h \<le> 100 \<and>
       (\<exists>u a. h = drop (length (loadHistory store) + 2 - 100) (loadHistory store @ [u, a]))"
    if "StoragePut h \<in> set (effects (onChatMessage e store ms))" for h
  proof -
    from onChatMessage_cases [of ms e store] that
    obtain m where "extractContent m \<noteq> []"
      and "onChatMessage e store ms = processUserMessage e store m"
      by auto
    with that processUserMessage_put [of m h e store] show ?thesis by simp
  qed
  have b: "storage (onChatMessage_dup e store ms) = Some h \<and> length h \<le> 100 \<and>
       (\<exists>u a. h = drop (length (loadHistory store) + 2 - 100) (loadHistory store @ [u, a]))"
    if "StoragePut h \<in> set (effects (onChatMessage_dup e store ms))" for h
  proof -
    from onChatMessage_dup_cases [of ms e store] that
    obtain m where "extractContent m \<noteq> []"
      and "onChatMessage_dup e store ms = processUserMessage e store m"
      by auto
    with that processUserMessage_put [of m h e store] show ?thesis by simp
  qed
  have c: "storage (onChatMessage e store ms) = store \<or>
    length (loadHistory (storage (onChatMessage e store ms))) \<le> 100"
  proof (cases "\<exists>m. extractContent m \<noteq> [] \<and>
                  onChatMessage e store ms = processUserMessage e store m")
    case True
    then obtain m where "extractContent m \<noteq> []"
      and "onChatMessage e store ms = processUserMessage e store m" by blast
    then show ?thesis using processUserMessage_storage_le [of m e store] by simp
  next
    case False
    with onChatMessage_cases [of ms e store] show ?thesis
      by (auto simp: loadHistory_def)
  qed
  have d: "storage (onChatMessage_dup e store ms) = store \<or>
    length (loadHistory (storage (onChatMessage_dup e store ms))) \<le> 100"
  proof (cases "\<exists>m. extractContent m \<noteq> [] \<and>
                  onChatMessage_dup e store ms = processUserMessage e store m")
    case True
    then obtain m where "extractContent m \<noteq> []"
      and "onChatMessage_dup e store ms = processUserMessage e store m" by blast
    then show ?thesis using processUserMessage_storage_le [of m e store] by simp
  next
    case False
    with onChatMessage_dup_cases [of ms e store] show ?thesis
      by auto
  qed
  from a b c d show ?thesis by blast
qed

lemma sample_turn:
  "onChatMessage sample_env (Some (sample_log n)) [text_message User ''real question'']
     = \<lparr>response = UIMessageStreamResponse,
        storage = Some (trimStoredHistory (sample_log n @
           [userStored sample_env (text_message User ''real question''),
            assistantStored sample_env (lit ''Offside, Law 11.'')])),
        effects = [StreamText (contextOf sample_env (Some (sample_log n))
                     (text_message User ''real question'')),
                   StoragePut (trimStoredHistory (sample_log n @
           [userStored sample_env (text_message User ''real question''),
            assistantStored sample_env (lit ''Offside, Law 11.'')]))]\<rparr>"
proof -
  let ?m = "text_message User ''real question''"
  have ne: "extractContent ?m \<noteq> []" by (simp add: lit_nonempty_eval lit_def)
  then have "getLatestMessage [?m] = Some ?m" by (rule getLatestMessage_single)
  then have "onChatMessage sample_env (Some (sample_log n)) [?m]
               = processUserMessage sample_env (Some (sample_log n)) ?m"
    by (simp add: onChatMessage_def Let_def)
  moreover have "event_text sample_env = Some (lit ''Offside, Law 11.'')"
    by (simp add: sample_env_def)
  ultimately show ?thesis
    using processUserMessage_finished [OF ne, of sample_env _ "Some (sample_log n)"]
    by (simp add: loadHistory_def)
qed

lemma sample_trim:
  "100 \<le> n + 2 \<Longrightarrow> trimStoredHistory (sample_log n @ [u, a])
     = map sample_entry [n + 2 - 100..<n] @ [u, a]"
  by (simp add: trimStoredHistory_drop sample_log_def drop_map)

theorem stored_log_bounded_witness:
  "StoragePut (map sample_entry [1..<99] @
       [userStored sample_env (text_message User ''real question''),
        assistantStored sample_env (lit ''Offside, Law 11.'')])
     \<in> set (effects (onChatMessage sample_env (Some (sample_log 99))
                        [text_message User ''real question''])) \<and>
   length (map sample_entry [1..<99] @
       [userStored sample_env (text_message User ''real question''),
        assistantStored sample_env (lit ''Offside, Law 11.'')]) \<le> 100"
proof -
  have p: "StoragePut (map sample_entry [1..<99] @
       [userStored sample_env (text_message User ''real question''),
        assistantStored sample_env (lit ''Offside, Law 11.'')])
     \<in> set (effects (onChatMessage sample_env (Some (sample_log 99))
                        [text_message User ''real question'']))"
    by (simp add: sample_turn sample_trim)
  with stored_log_bounded [of sample_env "Some (sample_log 99)"
      "[text_message User ''real question'']"]
  show ?thesis by blast
qed

lemma sample_entry_inj [simp]: "sample_entry i = sample_entry j \<longleftrightarrow> i = j"
proof
  assume "sample_entry i = sample_entry j"
  then have "length (content (sample_entry i)) = length (content (sample_entry j))" by simp
  then show "i = j" by (simp add: sample_entry_def)
qed simp

lemma sample_log_nth: "i < n \<Longrightarrow> sample_log n ! i = sample_entry i"
  by (simp add: sample_log_def)

lemma sample_new_entries:
  "sample_entry i \<noteq> userStored e (text_message User ''real question'')"
  "sample_entry i \<noteq> assistantStored e t"
  by (simp_all add: userStored_def assistantStored_def sample_entry_def lit_nonempty_eval lit_def)

text \<open>
  Claim C1, as stated: from a log of 120 entries, the stored log after one exchange is
  the log without its 20 oldest entries followed by the 2 new ones. It fails: that list
  has 102 entries; the entries 21 and 22 of the original log (indices 20 and 21) are
  dropped as well.
\<close>

theorem trim_after_exchange_counterexample:
  "length (sample_log 120) = 120 \<and>
   storage (onChatMessage sample_env (Some (sample_log 120)) [text_message User ''real question''])
     \<noteq> Some (drop 20 (sample_log 120) @
           [userStored sample_env (text_message User ''real question''),
            assistantStored sample_env (lit ''Offside, Law 11.'')]) \<and>
   sample_log 120 ! 20 \<notin> set (loadHistory (storage
     (onChatMessage sample_env (Some (sample_log 120)) [text_message User ''real question'']))) \<and>
   sample_log 120 ! 21 \<notin> set (loadHistory (storage
     (onChatMessage sample_env (Some (sample_log 120)) [text_message User ''real question''])))"
proof -
  let ?u = "userStored sample_env (text_message User ''real question'')"
  let ?a = "assistantStored sample_env (lit ''Offside, Law 11.'')"
  have st: "storage (onChatMessage sample_env (Some (sample_log 120))
               [text_message User ''real question''])
             = Some (map sample_entry [22..<120] @ [?u, ?a])"
    by (simp add: sample_turn sample_trim)
  have "length (map sample_entry [22..<120] @ [?u, ?a]) \<noteq>
        length (drop 20 (sample_log 120) @ [?u, ?a])"
    by simp
  then have ne: "map sample_entry [22..<120] @ [?u, ?a] \<noteq> drop 20 (sample_log 120) @ [?u, ?a]"
    by metis
  have m20: "sample_entry 20 \<notin> set (map sample_entry [22..<120] @ [?u, ?a])"
    by (auto simp: sample_new_entries)
  have m21: "sample_entry 21 \<notin> set (map sample_entry [22..<120] @ [?u, ?a])"
    by (auto simp: sample_new_entries)
  from st ne m20 m21 show ?thesis
    by (simp add: sample_log_nth loadHistory_def)
qed

text \<open>
  Claim C1, amended. From a stored log of 120 entries, after the handler appends one
  exchange and trims, the stored log has exactly 100 entries: the 22 oldest original
  entries are dropped, and the two new entries, the user message and the assistant
  message, are retained as the two newest.
\<close>

theorem trim_after_exchange:
  assumes "length h = 120" and "getLatestMessage ms = Some m" and "ui_role m = User"
    and "event_text e = Some t"
  shows "storage (onChatMessage e (Some h) ms)
           = Some (drop 22 h @ [userStored e m, assistantStored e t]) \<and>
         StoragePut (drop 22 h @ [userStored e m, assistantStored e t])
           \<in> set (effects (onChatMessage e (Some h) ms)) \<and>
         length (drop 22 h @ [userStored e m, assistantStored e t]) = 100 \<and>
         role (userStored e m) = User \<and> content (userStored e m) = extractContent m \<and>
         role (assistantStored e t) = Assistant \<and> content (assistantStored e t) = t"
proof -
  have ne: "extractContent m \<noteq> []" using assms(2) by (rule getLatestMessage_nonempty)
  have "onChatMessage e (Some h) ms = processUserMessage e (Some h) m"
    using assms(2,3) by (simp add: onChatMessage_def Let_def)
  moreover have "trimStoredHistory (h @ [userStored e m, assistantStored e t])
                   = drop 22 h @ [userStored e m, assistantStored e t]"
    using assms(1) by (simp add: trimStoredHistory_drop)
  ultimately show ?thesis
    using assms(1,3) processUserMessage_finished [OF ne assms(4), of "Some h"]
    by (simp add: loadHistory_def userStored_def assistantStored_def)
qed

theorem trim_after_exchange_witness:
  "storage (onChatMessage sample_env (Some (sample_log 120)) [text_message User ''real question''])
     = Some (map sample_entry [22..<120] @
         [\<lparr>role = User, content = lit ''real question'',
           metadata = Some \<lparr>createdAt = lit ''2025-06-01T10:00:00.000Z''\<rparr>\<rparr>,
          \<lparr>role = Assistant, content = lit ''Offside, Law 11.'',
           metadata = Some \<lparr>createdAt = lit ''2025-06-01T10:00:02.500Z''\<rparr>\<rparr>])"
proof -
  let ?m = "text_message User ''real question''"
  have ne: "extractContent ?m \<noteq> []" by (simp add: lit_nonempty_eval lit_def)
  have l: "length (sample_log 120) = 120" by simp
  have g: "getLatestMessage [?m] = Some ?m" using ne by (rule getLatestMessage_single)
  have r: "ui_role ?m = User" by simp
  have ev: "event_text sample_env = Some (lit ''Offside, Law 11.'')" by (simp add: sample_env_def)
  have us: "userStored sample_env ?m = \<lparr>role = User, content = lit ''real question'',
           metadata = Some \<lparr>createdAt = lit ''2025-06-01T10:00:00.000Z''\<rparr>\<rparr>"
    by (simp add: userStored_def lit_nonempty_eval) (simp add: sample_env_def lit_def)
  have as: "assistantStored sample_env (lit ''Offside, Law 11.'') =
      \<lparr>role = Assistant, content = lit ''Offside, Law 11.'',
                metadata = Some \<lparr>createdAt = lit ''2025-06-01T10:00:02.500Z''\<rparr>\<rparr>"
    by (simp add: assistantStored_def sample_env_def)
  have d: "drop 22 (sample_log 120) = map sample_entry [22..<120]"
    by (simp add: sample_log_def drop_map)
  from trim_after_exchange [OF l g r ev] us as d show ?thesis by simp
qed

end
